theory Spec2Isabelle
  imports Complex_Main "HOL-Library.Sublist"
begin

section \<open>Errors, payloads and durations\<close>

text \<open>
  A Go \<^verbatim>\<open>error\<close> is modelled by its message text (what \<^verbatim>\<open>err.Error()\<close> returns): the
  retry engine only ever reads that text, and \<^verbatim>\<open>fmt.Errorf\<close> builds nothing else. A nil
  error is \<open>None\<close>. A \<^verbatim>\<open>[]byte\<close> payload is a string, a nil slice is \<open>None\<close>.
  A \<^verbatim>\<open>time.Duration\<close> is an integer number of nanoseconds.
\<close>

type_synonym error = string
type_synonym bytes = string
type_synonym Duration = int

definition Millisecond :: Duration where
  "Millisecond = 1000000"

definition Second :: Duration where
  "Second = 1000000000"

section \<open>internal/api/retry.go\<close>

subsection \<open>strings.Contains\<close>

fun HasPrefix :: "string \<Rightarrow> string \<Rightarrow> bool" where
  "HasPrefix s [] = True"
| "HasPrefix [] (p # ps) = False"
| "HasPrefix (c # s) (p # ps) = (c = p \<and> HasPrefix s ps)"

fun strings_Contains :: "string \<Rightarrow> string \<Rightarrow> bool" where
  "strings_Contains [] substr = (substr = [])"
| "strings_Contains (c # s) substr = (HasPrefix (c # s) substr \<or> strings_Contains s substr)"

subsection \<open>RetryConfig and DefaultRetryConfig\<close>

text \<open>
  \<^verbatim>\<open>Multiplier\<close> and \<^verbatim>\<open>JitterFactor\<close> are \<^verbatim>\<open>float64\<close> in the source; the record holds
  the numbers the source writes for them. No arithmetic is done on them here.
\<close>

record RetryConfig =
  MaxRetries :: int
  BaseDelay :: Duration
  MaxDelay :: Duration
  Multiplier :: real
  JitterFactor :: real

definition DefaultRetryConfig :: RetryConfig where
  "DefaultRetryConfig =
     \<lparr> MaxRetries = 3,
       BaseDelay = 100 * Millisecond,
       MaxDelay = 5 * Second,
       Multiplier = 2,
       JitterFactor = 1 / 10 \<rparr>"

subsection \<open>isRetryableError\<close>

definition networkErrors :: "string list" where
  "networkErrors =
     [''connection refused'',
      ''connection reset'',
      ''i/o timeout'',
      ''temporary failure'',
      ''no such host'',
      ''network is unreachable'']"

definition retryableStatuses :: "string list" where
  "retryableStatuses = [''429'', ''502'', ''503'', ''504'']"

text \<open>
  The two \<^verbatim>\<open>for ... range\<close> loops return true at the first pattern found in the text;
  \<open>list_ex\<close> is that search.
\<close>

definition isRetryableError :: "error option \<Rightarrow> bool" where
  "isRetryableError err =
     (case err of
        None \<Rightarrow> False
      | Some errStr \<Rightarrow>
          if list_ex (\<lambda>pattern. strings_Contains errStr pattern) networkErrors then True
          else if list_ex (\<lambda>status. strings_Contains errStr status) retryableStatuses then True
          else False)"

subsection \<open>doRequestWithRetry\<close>

text \<open>
  One logical call runs against an environment:
  \<^item> \<open>dep k\<close> is what the \<open>k\<close>-th physical call of \<^verbatim>\<open>doRequest\<close> returns (counting from 0):
    \<open>Inl err\<close> for \<^verbatim>\<open>(nil, err)\<close>, \<open>Inr resp\<close> for \<^verbatim>\<open>(resp, nil)\<close>;
  \<^item> \<open>ctxDone k delay\<close> is the outcome of the \<^verbatim>\<open>select\<close> after attempt \<open>k\<close>, armed with
    \<open>delay\<close>: \<open>Some e\<close> when the \<^verbatim>\<open>ctx.Done()\<close> case is taken and \<^verbatim>\<open>ctx.Err()\<close> is \<open>e\<close>,
    \<open>None\<close> when the timer case is taken;
  \<^item> \<open>rnd k\<close> is the \<^verbatim>\<open>rand.Float64()\<close> draw of the backoff after attempt \<open>k\<close>;
  \<^item> \<open>calculateBackoff attempt config r\<close> is the delay \<^verbatim>\<open>calculateBackoff(attempt, config)\<close>
    returns when its draw is \<open>r\<close>. The source computes it in \<^verbatim>\<open>float64\<close> arithmetic
    (\<^verbatim>\<open>math.Pow\<close>, products and a sum, each rounded, then a conversion to \<^verbatim>\<open>Duration\<close>),
    which has no embedding here; the loop only hands the delay to \<^verbatim>\<open>time.After\<close>, so the
    function is a parameter and every property of the loop holds whatever it computes.

  The outcome carries the two returned values and the number of \<^verbatim>\<open>doRequest\<close> calls made.
\<close>

record Outcome =
  resp :: "bytes option"
  err :: "error option"
  attempts :: nat

function retryLoop ::
  "(nat \<Rightarrow> RetryConfig \<Rightarrow> real \<Rightarrow> Duration) \<Rightarrow> RetryConfig \<Rightarrow> (nat \<Rightarrow> error + bytes)
     \<Rightarrow> (nat \<Rightarrow> Duration \<Rightarrow> error option) \<Rightarrow> (nat \<Rightarrow> real) \<Rightarrow> error option \<Rightarrow> nat \<Rightarrow> Outcome" where
  "retryLoop calculateBackoff config dep ctxDone rnd lastErr attempt =
     (if int attempt \<le> MaxRetries config then
        (case dep attempt of
           Inr r \<Rightarrow> \<lparr> resp = Some r, err = None, attempts = attempt + 1 \<rparr>
         | Inl e \<Rightarrow>
             if \<not> isRetryableError (Some e) \<or> int attempt = MaxRetries config
             then \<lparr> resp = None, err = Some e, attempts = attempt + 1 \<rparr>
             else
               (case ctxDone attempt (calculateBackoff attempt config (rnd attempt)) of
                  Some ctxErr \<Rightarrow> \<lparr> resp = None, err = Some ctxErr, attempts = attempt + 1 \<rparr>
                | None \<Rightarrow> retryLoop calculateBackoff config dep ctxDone rnd (Some e) (attempt + 1)))
      else \<lparr> resp = None, err = lastErr, attempts = attempt \<rparr>)"
  by pat_completeness auto
termination
  by (relation "measure (\<lambda>(calculateBackoff, config, dep, ctxDone, rnd, lastErr, attempt).
        nat (MaxRetries config + 1 - int attempt))") auto

text \<open>
  The configuration the loop runs with: the client's own, or the default one when the
  client's \<^verbatim>\<open>MaxRetries\<close> is 0 (the first lines of \<^verbatim>\<open>doRequestWithRetry\<close>). The debug log
  line after the wait changes nothing the caller sees and is left out.
\<close>

definition effectiveConfig :: "RetryConfig \<Rightarrow> RetryConfig" where
  "effectiveConfig retryConfig =
     (if MaxRetries retryConfig = 0 then DefaultRetryConfig else retryConfig)"

definition doRequestWithRetry ::
  "(nat \<Rightarrow> RetryConfig \<Rightarrow> real \<Rightarrow> Duration) \<Rightarrow> RetryConfig \<Rightarrow> (nat \<Rightarrow> error + bytes)
     \<Rightarrow> (nat \<Rightarrow> Duration \<Rightarrow> error option) \<Rightarrow> (nat \<Rightarrow> real) \<Rightarrow> Outcome" where
  "doRequestWithRetry calculateBackoff retryConfig dep ctxDone rnd =
     retryLoop calculateBackoff (effectiveConfig retryConfig) dep ctxDone rnd None 0"

section \<open>internal/api/client.go\<close>

subsection \<open>doRequest\<close>

text \<open>
  \<^verbatim>\<open>%d\<close> of a status code: its decimal digits. A status code is a natural number.
\<close>

definition digit :: "nat \<Rightarrow> char" where
  "digit d = ''0123456789'' ! d"

function itoa :: "nat \<Rightarrow> string" where
  "itoa n = (if n < 10 then [digit n] else itoa (n div 10) @ [digit (n mod 10)])"
  by pat_completeness auto
termination
  by (relation "measure (\<lambda>n. n)") auto

text \<open>
  The error envelope \<^verbatim>\<open>{error: {code, message}}\<close>; \<^verbatim>\<open>meta\<close> is never read.
\<close>

record ErrorDetail =
  Code :: string
  Message :: string

text \<open>
  What the steps of \<^verbatim>\<open>doRequest\<close> that leave the program can yield, in the order the
  function runs them: \<^verbatim>\<open>json.Marshal\<close>, \<^verbatim>\<open>http.NewRequestWithContext\<close>,
  \<^verbatim>\<open>httpClient.Do\<close>, \<^verbatim>\<open>io.ReadAll\<close>, and at last a response with its status code and body.
\<close>

datatype RoundTrip =
    MarshalFailed error
  | NewRequestFailed error
  | DoFailed error
  | ReadFailed error
  | Received nat bytes

text \<open>
  \<open>unmarshal\<close> stands for \<^verbatim>\<open>json.Unmarshal(respBody, &errResp)\<close>: \<open>None\<close> when it returns an
  error, otherwise the decoded \<^verbatim>\<open>errResp.Error\<close> (with an empty \<open>Code\<close> when the body has none).
\<close>

definition doRequest :: "(bytes \<Rightarrow> ErrorDetail option) \<Rightarrow> RoundTrip \<Rightarrow> error + bytes" where
  "doRequest unmarshal rt =
     (case rt of
        MarshalFailed e \<Rightarrow> Inl (''failed to marshal request body: '' @ e)
      | NewRequestFailed e \<Rightarrow> Inl (''failed to create request: '' @ e)
      | DoFailed e \<Rightarrow> Inl (''request failed: '' @ e)
      | ReadFailed e \<Rightarrow> Inl (''failed to read response: '' @ e)
      | Received StatusCode respBody \<Rightarrow>
          if StatusCode \<ge> 400 then
            (case unmarshal respBody of
               Some errResp \<Rightarrow>
                 if Code errResp \<noteq> []
                 then Inl (itoa StatusCode @ '': '' @ Code errResp @ '' - '' @ Message errResp)
                 else Inl (itoa StatusCode @ '': '' @ respBody)
             | None \<Rightarrow> Inl (itoa StatusCode @ '': '' @ respBody))
          else Inr respBody)"

subsection \<open>The CheckRedirect hook of NewClient\<close>










subsection \<open>WaitForProcess\<close>

text \<open>
  Of a \<^verbatim>\<open>Process\<close> the poller reads only the status; the identifier is kept with it.
\<close>

record Process =
  ID :: string
  Status :: string

text \<open>
  Which context a \<^verbatim>\<open>GetProcess\<close> call was given: the one bound by the timeout, or
  \<^verbatim>\<open>context.Background()\<close>.
\<close>

datatype Ctx = WithTimeout | Background

text \<open>
  The result: the two returned values, the contexts of the \<^verbatim>\<open>GetProcess\<close> calls made (in
  order), and the intervals the \<^verbatim>\<open>select\<close> armed its timer with (in order).
\<close>

record WaitResult =
  process :: "Process option"
  werr :: "error option"
  fetches :: "Ctx list"
  timers :: "Duration list"

definition minInterval :: Duration where
  "minInterval = 500 * Millisecond"

definition maxInterval :: Duration where
  "maxInterval = 5 * Second"

definition multiplier :: real where
  "multiplier = 3 / 2"

text \<open>
  The conversion \<^verbatim>\<open>time.Duration(x)\<close> of a \<^verbatim>\<open>float64\<close> truncates towards zero.
\<close>

definition Duration_of_float :: "real \<Rightarrow> Duration" where
  "Duration_of_float x = (if 0 \<le> x then \<lfloor>x\<rfloor> else \<lceil>x\<rceil>)"

text \<open>
  The interval after a poll that found the process still running: multiplied, converted
  back to a \<^verbatim>\<open>Duration\<close>, and capped. On the intervals the loop reaches (500 ms times a
  power of 1.5, below the cap of 5 s) the \<^verbatim>\<open>float64\<close> product is exact, so it is the product
  of the numbers.
\<close>

definition nextInterval :: "Duration \<Rightarrow> Duration" where
  "nextInterval currentInterval =
     (let currentInterval = Duration_of_float (real_of_int currentInterval * multiplier)
      in if currentInterval > maxInterval then maxInterval else currentInterval)"

text \<open>
  The intervals of the first \<open>n\<close> waits of a loop that starts with \<open>currentInterval\<close> and
  finds the process running each time.
\<close>

fun intervals :: "nat \<Rightarrow> Duration \<Rightarrow> Duration list" where
  "intervals 0 currentInterval = []"
| "intervals (Suc n) currentInterval = currentInterval # intervals n (nextInterval currentInterval)"

definition fetched :: "Ctx \<Rightarrow> WaitResult \<Rightarrow> WaitResult" where
  "fetched c r = r\<lparr> fetches := c # fetches r \<rparr>"

definition armed :: "Duration \<Rightarrow> WaitResult \<Rightarrow> WaitResult" where
  "armed d r = r\<lparr> timers := d # timers r \<rparr>"

text \<open>
  The environment of one wait: \<open>ticks\<close> lists what \<^verbatim>\<open>GetProcess(ctx, processID)\<close> returns
  each time the timer case of the \<^verbatim>\<open>select\<close> is taken (\<open>Inl err\<close> for \<^verbatim>\<open>(nil, err)\<close>,
  \<open>Inr p\<close> for \<^verbatim>\<open>(&p, nil)\<close>); the context is bound by a timeout, so after finitely many
  ticks the \<^verbatim>\<open>ctx.Done()\<close> case is taken: that is the end of the list. Then \<open>ctxErr\<close> is
  \<^verbatim>\<open>ctx.Err()\<close> and \<open>final\<close> is what \<^verbatim>\<open>GetProcess(context.Background(), processID)\<close> returns.
  A deadline that expires while a poll is in flight is a tick \<open>Inl err\<close>: the fetch bound by
  the context fails. Ticks left over when the loop returns are never looked at.
\<close>

fun pollLoop ::
  "string \<Rightarrow> error \<Rightarrow> error + Process \<Rightarrow> Duration \<Rightarrow> (error + Process) list \<Rightarrow> WaitResult" where
  "pollLoop processID ctxErr final currentInterval [] =
     armed currentInterval (fetched Background
       (case final of
          Inr finalProcess \<Rightarrow>
            \<lparr> process = Some finalProcess,
              werr = Some (''timeout waiting for process '' @ processID @ '' (last status: ''
                           @ Status finalProcess @ '')''),
              fetches = [], timers = [] \<rparr>
        | Inl _ \<Rightarrow>
            \<lparr> process = None,
              werr = Some (''timeout waiting for process '' @ processID @ '': '' @ ctxErr),
              fetches = [], timers = [] \<rparr>))"
| "pollLoop processID ctxErr final currentInterval (tick # ticks) =
     armed currentInterval (fetched WithTimeout
       (case tick of
          Inl e \<Rightarrow>
            \<lparr> process = None, werr = Some (''failed to get process status: '' @ e),
              fetches = [], timers = [] \<rparr>
        | Inr p \<Rightarrow>
            if Status p = ''SUCCESS'' \<or> Status p = ''FINISHED''
            then \<lparr> process = Some p, werr = None, fetches = [], timers = [] \<rparr>
            else if Status p = ''FAILED'' \<or> Status p = ''ERROR'' \<or> Status p = ''CANCELLED''
            then \<lparr> process = Some p,
                   werr = Some (''process '' @ processID @ '' failed with status: '' @ Status p),
                   fetches = [], timers = [] \<rparr>
            else pollLoop processID ctxErr final (nextInterval currentInterval) ticks))"

definition WaitForProcess ::
  "string \<Rightarrow> error + Process \<Rightarrow> (error + Process) list \<Rightarrow> error \<Rightarrow> error + Process \<Rightarrow> WaitResult" where
  "WaitForProcess processID first ticks ctxErr final =
     (let currentInterval = minInterval in
      fetched WithTimeout
        (case first of
           Inr p \<Rightarrow>
             if Status p = ''SUCCESS'' \<or> Status p = ''FINISHED''
             then \<lparr> process = Some p, werr = None, fetches = [], timers = [] \<rparr>
             else if Status p = ''FAILED'' \<or> Status p = ''ERROR'' \<or> Status p = ''CANCELLED''
             then \<lparr> process = Some p,
                    werr = Some (''process '' @ processID @ '' failed with status: '' @ Status p),
                    fetches = [], timers = [] \<rparr>
             else pollLoop processID ctxErr final currentInterval ticks
         | Inl _ \<Rightarrow> pollLoop processID ctxErr final currentInterval ticks))"

section \<open>Example environments\<close>

text \<open>
  Concrete configurations, dependencies and contexts at which the properties below are
  evaluated.
\<close>

definition always503 :: "nat \<Rightarrow> error + bytes" where
  "always503 k = Inl ''503: Service Unavailable''"

definition neverDone :: "nat \<Rightarrow> Duration \<Rightarrow> error option" where
  "neverDone k delay = None"

text \<open>
  A delay function for the concrete runs: the contexts of these runs do not look at the
  delay.
\<close>

definition baseDelayBackoff :: "nat \<Rightarrow> RetryConfig \<Rightarrow> real \<Rightarrow> Duration" where
  "baseDelayBackoff attempt config r = BaseDelay config"

definition midDraw :: "nat \<Rightarrow> real" where
  "midDraw k = 1 / 2"

definition zeroRetries :: RetryConfig where
  "zeroRetries = \<lparr> MaxRetries = 0, BaseDelay = 100 * Millisecond, MaxDelay = 5 * Second,
       Multiplier = 2, JitterFactor = 1 / 10 \<rparr>"

definition retryThenNotFound :: "nat \<Rightarrow> error + bytes" where
  "retryThenNotFound k = (if k = 0 then Inl ''502: Bad Gateway'' else Inl ''404: Not Found'')"

definition doneAfterSecond :: "nat \<Rightarrow> Duration \<Rightarrow> error option" where
  "doneAfterSecond k delay = (if k = 1 then Some ''context canceled'' else None)"

definition noRetries :: RetryConfig where
  "noRetries = \<lparr> MaxRetries = 0, BaseDelay = Second, MaxDelay = Second,
       Multiplier = 3, JitterFactor = 0 \<rparr>"

definition noEnvelope :: "bytes \<Rightarrow> ErrorDetail option" where
  "noEnvelope respBody = None"

definition always404 :: "nat \<Rightarrow> error + bytes" where
  "always404 k = doRequest noEnvelope (Received 404 ''page not found'')"

definition always404mentioning503 :: "nat \<Rightarrow> error + bytes" where
  "always404mentioning503 k = doRequest noEnvelope (Received 404 ''upstream answered 503'')"








definition runningProcess :: Process where
  "runningProcess = \<lparr> ID = ''p1'', Status = ''RUNNING'' \<rparr>"

definition succeededProcess :: Process where
  "succeededProcess = \<lparr> ID = ''p1'', Status = ''SUCCESS'' \<rparr>"

section \<open>The retry loop\<close>

declare retryLoop.simps [simp del]

lemma retryLoop_lastErr_irrelevant:
  "int a \<le> MaxRetries c \<Longrightarrow> retryLoop calculateBackoff c dep cd rnd l a = retryLoop calculateBackoff c dep cd rnd l' a"
proof (induction calculateBackoff c dep cd rnd l a arbitrary: l' rule: retryLoop.induct)
  case (1 calculateBackoff config dep ctxDone rnd lastErr attempt)
  show ?case
    using "1.prems"
    by (auto simp add: retryLoop.simps[of _ _ _ _ _ _ attempt] split: sum.splits option.splits)
qed

lemma retryLoop_attempts_le:
  "a \<le> nat (MaxRetries c + 1) \<Longrightarrow> attempts (retryLoop calculateBackoff c dep cd rnd l a) \<le> nat (MaxRetries c + 1)"
proof (induction calculateBackoff c dep cd rnd l a rule: retryLoop.induct)
  case (1 calculateBackoff config dep ctxDone rnd lastErr attempt)
  show ?case
  proof (cases "int attempt \<le> MaxRetries config")
    case False
    then show ?thesis using "1.prems" by (simp add: retryLoop.simps[of _ _ _ _ _ _ attempt])
  next
    case True
    then have b: "attempt + 1 \<le> nat (MaxRetries config + 1)" by simp
    show ?thesis using True b "1.IH"
      by (auto simp add: retryLoop.simps[of _ _ _ _ _ _ attempt] split: sum.splits option.splits)
  qed
qed

lemma retryLoop_step:
  assumes "dep k = Inl e" "isRetryableError (Some e)" "int k < MaxRetries c"
    "cd k (calculateBackoff k c (rnd k)) = None"
  shows "retryLoop calculateBackoff c dep cd rnd l k = retryLoop calculateBackoff c dep cd rnd l' (Suc k)"
proof -
  have "retryLoop calculateBackoff c dep cd rnd l k = retryLoop calculateBackoff c dep cd rnd (Some e) (k + 1)"
    using assms by (simp add: retryLoop.simps[of _ _ _ _ _ _ k])
  also have "\<dots> = retryLoop calculateBackoff c dep cd rnd l' (k + 1)"
    using assms(3) by (intro retryLoop_lastErr_irrelevant) simp
  finally show ?thesis by simp
qed

lemma retryLoop_skip:
  assumes "\<forall>j<k. (\<exists>e. dep j = Inl e \<and> isRetryableError (Some e)) \<and>
                 cd j (calculateBackoff j c (rnd j)) = None"
    and "int k \<le> MaxRetries c"
  shows "retryLoop calculateBackoff c dep cd rnd None 0 = retryLoop calculateBackoff c dep cd rnd l k"
  using assms
proof (induction k arbitrary: l)
  case 0
  then show ?case by (intro retryLoop_lastErr_irrelevant) simp
next
  case (Suc k)
  have a: "retryLoop calculateBackoff c dep cd rnd None 0 = retryLoop calculateBackoff c dep cd rnd None k"
    using Suc by simp
  obtain e where e: "dep k = Inl e" "isRetryableError (Some e)"
    using Suc.prems(1) by blast
  have n: "cd k (calculateBackoff k c (rnd k)) = None" using Suc.prems(1) by blast
  have "retryLoop calculateBackoff c dep cd rnd None k = retryLoop calculateBackoff c dep cd rnd l (Suc k)"
    using e n Suc.prems(2) by (intro retryLoop_step) auto
  with a show ?case by simp
qed

lemma retryLoop_last:
  assumes "dep k = Inl e" "\<not> isRetryableError (Some e) \<or> int k = MaxRetries c" "int k \<le> MaxRetries c"
  shows "retryLoop calculateBackoff c dep cd rnd l k = \<lparr> resp = None, err = Some e, attempts = k + 1 \<rparr>"
  using assms by (auto simp add: retryLoop.simps[of _ _ _ _ _ _ k])

lemma retryLoop_cancel:
  assumes "dep k = Inl e" "isRetryableError (Some e)" "int k < MaxRetries c"
    "cd k (calculateBackoff k c (rnd k)) = Some ce"
  shows "retryLoop calculateBackoff c dep cd rnd l k = \<lparr> resp = None, err = Some ce, attempts = k + 1 \<rparr>"
  using assms by (auto simp add: retryLoop.simps[of _ _ _ _ _ _ k])

lemma retryLoop_exhaust:
  assumes "\<forall>k. \<exists>e. dep k = Inl e \<and> isRetryableError (Some e)" "\<forall>k d. cd k d = None"
    "0 \<le> MaxRetries c"
  shows "attempts (retryLoop calculateBackoff c dep cd rnd None 0) = nat (MaxRetries c) + 1"
proof -
  let ?k = "nat (MaxRetries c)"
  obtain e where e: "dep ?k = Inl e" using assms(1) by blast
  have "retryLoop calculateBackoff c dep cd rnd None 0 = retryLoop calculateBackoff c dep cd rnd None ?k"
    using assms by (intro retryLoop_skip) auto
  also have "\<dots> = \<lparr> resp = None, err = Some e, attempts = ?k + 1 \<rparr>"
    using e assms(3) by (intro retryLoop_last) auto
  finally show ?thesis by simp
qed

lemma retryable503: "isRetryableError (Some ''503: Service Unavailable'')"
  by (simp add: isRetryableError_def networkErrors_def retryableStatuses_def)

lemma effectiveConfig_pos: "MaxRetries c \<noteq> 0 \<Longrightarrow> effectiveConfig c = c"
  by (simp add: effectiveConfig_def)

section \<open>Claims about the resilient request executor\<close>

text \<open>
  Claim C1 as stated fails for a policy with \<open>MaxRetries = 0\<close>: against a dependency that
  always answers 503 and a context that is never cancelled the call makes four attempts,
  not one.
\<close>

theorem attempt_ceiling_counterexample:
  "MaxRetries zeroRetries = 0 \<and>
   isRetryableError (Some ''503: Service Unavailable'') \<and>
   always503 0 = Inl ''503: Service Unavailable'' \<and>
   attempts (doRequestWithRetry baseDelayBackoff zeroRetries always503 neverDone midDraw) = 4 \<and>
   \<not> attempts (doRequestWithRetry baseDelayBackoff zeroRetries always503 neverDone midDraw)
       \<le> nat (MaxRetries zeroRetries) + 1"
  by (simp add: doRequestWithRetry_def effectiveConfig_def zeroRetries_def DefaultRetryConfig_def
      retryLoop.simps always503_def neverDone_def retryable503)

text \<open>
  Claim C1, amended: for every retry policy with \<open>MaxRetries = N\<close> and \<open>N \<ge> 1\<close>, one logical
  call through \<open>doRequestWithRetry\<close> never makes more than \<open>N + 1\<close> physical attempts,
  whatever the dependency and the context do; and when every call of the dependency fails
  with a retryable error and the context is never done during a backoff wait, it makes
  exactly \<open>N + 1\<close> attempts.
\<close>

theorem attempt_ceiling:
  assumes "1 \<le> MaxRetries c"
  shows "attempts (doRequestWithRetry calculateBackoff c dep ctxDone rnd) \<le> nat (MaxRetries c) + 1 \<and>
         ((\<forall>k. \<exists>e. dep k = Inl e \<and> isRetryableError (Some e)) \<and> (\<forall>k d. ctxDone k d = None)
            \<longrightarrow> attempts (doRequestWithRetry calculateBackoff c dep ctxDone rnd) = nat (MaxRetries c) + 1)"
proof -
  have cfg: "effectiveConfig c = c" using assms by (simp add: effectiveConfig_def)
  have "attempts (retryLoop calculateBackoff c dep ctxDone rnd None 0) \<le> nat (MaxRetries c + 1)"
    using assms by (intro retryLoop_attempts_le) simp
  moreover have "nat (MaxRetries c + 1) = nat (MaxRetries c) + 1" using assms by simp
  ultimately have le: "attempts (doRequestWithRetry calculateBackoff c dep ctxDone rnd) \<le> nat (MaxRetries c) + 1"
    by (simp add: doRequestWithRetry_def cfg)
  have "attempts (doRequestWithRetry calculateBackoff c dep ctxDone rnd) = nat (MaxRetries c) + 1"
    if "\<forall>k. \<exists>e. dep k = Inl e \<and> isRetryableError (Some e)" "\<forall>k d. ctxDone k d = None"
    using retryLoop_exhaust[OF that, where c = c and rnd = rnd and calculateBackoff = calculateBackoff] assms by (simp add: doRequestWithRetry_def cfg)
  with le show ?thesis by blast
qed

theorem attempt_ceiling_witness:
  "1 \<le> MaxRetries DefaultRetryConfig \<and>
   (\<forall>k. \<exists>e. always503 k = Inl e \<and> isRetryableError (Some e)) \<and>
   (\<forall>k d. neverDone k d = None) \<and>
   attempts (doRequestWithRetry baseDelayBackoff DefaultRetryConfig always503 neverDone midDraw) = 4"
  using attempt_ceiling [where c = DefaultRetryConfig and dep = always503 and ctxDone = neverDone
      and rnd = midDraw and calculateBackoff = baseDelayBackoff]
  by (simp add: DefaultRetryConfig_def always503_def neverDone_def retryable503)

text \<open>
  Claim C10: when the installed configuration has \<open>MaxRetries = 0\<close>, the call behaves in
  every respect as under \<open>DefaultRetryConfig\<close> (3 retries, 100 ms base delay, 5 s maximal
  delay, multiplier 2, jitter factor 0.1), whatever the other fields of the installed
  configuration are; so a dependency that always fails with a retryable error is called
  four times, not once.
\<close>

theorem zero_MaxRetries_means_default:
  assumes "MaxRetries c = 0"
  shows "doRequestWithRetry calculateBackoff c dep ctxDone rnd = doRequestWithRetry calculateBackoff DefaultRetryConfig dep ctxDone rnd \<and>
         DefaultRetryConfig = \<lparr> MaxRetries = 3, BaseDelay = 100 * Millisecond, MaxDelay = 5 * Second,
                                 Multiplier = 2, JitterFactor = 1 / 10 \<rparr> \<and>
         ((\<forall>k. \<exists>e. dep k = Inl e \<and> isRetryableError (Some e)) \<and> (\<forall>k d. ctxDone k d = None)
            \<longrightarrow> attempts (doRequestWithRetry calculateBackoff c dep ctxDone rnd) = 4)"
proof -
  have cfg: "effectiveConfig c = DefaultRetryConfig" using assms by (simp add: effectiveConfig_def)
  have dflt: "effectiveConfig DefaultRetryConfig = DefaultRetryConfig"
    by (simp add: effectiveConfig_def)
  have "attempts (doRequestWithRetry calculateBackoff c dep ctxDone rnd) = 4"
    if "\<forall>k. \<exists>e. dep k = Inl e \<and> isRetryableError (Some e)" "\<forall>k d. ctxDone k d = None"
    using retryLoop_exhaust[OF that, where c = DefaultRetryConfig and rnd = rnd
        and calculateBackoff = calculateBackoff]
    by (simp add: doRequestWithRetry_def cfg) (simp add: DefaultRetryConfig_def)
  then show ?thesis
    by (simp add: doRequestWithRetry_def cfg dflt) (simp add: DefaultRetryConfig_def)
qed

theorem zero_MaxRetries_means_default_witness:
  "MaxRetries noRetries = 0 \<and>
   (\<forall>k. \<exists>e. always503 k = Inl e \<and> isRetryableError (Some e)) \<and>
   (\<forall>k d. neverDone k d = None) \<and>
   attempts (doRequestWithRetry baseDelayBackoff noRetries always503 neverDone midDraw) = 4"
proof -
  have h: "MaxRetries noRetries = 0" by (simp add: noRetries_def)
  show ?thesis
    using h zero_MaxRetries_means_default [OF h, where dep = always503 and ctxDone = neverDone
        and rnd = midDraw and calculateBackoff = baseDelayBackoff]
    by (auto simp add: always503_def neverDone_def retryable503)
qed

text \<open>
  Claim C7: when attempts \<open>0..k\<close> have failed with retryable errors, attempt \<open>k\<close> is not the
  last one allowed, and the \<^verbatim>\<open>select\<close> that waits out the backoff after attempt \<open>k\<close> takes the
  \<^verbatim>\<open>ctx.Done()\<close> case, the call returns \<^verbatim>\<open>(nil, ctx.Err())\<close> and has made exactly \<open>k + 1\<close>
  calls of the dependency: no attempt \<open>k + 1\<close> takes place.
\<close>

theorem cancel_during_backoff:
  assumes "\<forall>j\<le>k. \<exists>e. dep j = Inl e \<and> isRetryableError (Some e)"
    and "\<forall>j<k. ctxDone j (calculateBackoff j (effectiveConfig c) (rnd j)) = None"
    and "int k < MaxRetries (effectiveConfig c)"
    and "ctxDone k (calculateBackoff k (effectiveConfig c) (rnd k)) = Some ctxErr"
  shows "doRequestWithRetry calculateBackoff c dep ctxDone rnd = \<lparr> resp = None, err = Some ctxErr, attempts = k + 1 \<rparr>"
proof -
  let ?cfg = "effectiveConfig c"
  obtain e where e: "dep k = Inl e" "isRetryableError (Some e)" using assms(1) by blast
  have "retryLoop calculateBackoff ?cfg dep ctxDone rnd None 0 = retryLoop calculateBackoff ?cfg dep ctxDone rnd None k"
    using assms(1,2,3) by (intro retryLoop_skip) auto
  also have "\<dots> = \<lparr> resp = None, err = Some ctxErr, attempts = k + 1 \<rparr>"
    using e assms(3,4) by (intro retryLoop_cancel) auto
  finally show ?thesis by (simp add: doRequestWithRetry_def)
qed

theorem cancel_during_backoff_witness:
  "always503 0 = Inl ''503: Service Unavailable'' \<and>
   always503 1 = Inl ''503: Service Unavailable'' \<and>
   isRetryableError (Some ''503: Service Unavailable'') \<and>
   int 1 < MaxRetries (effectiveConfig DefaultRetryConfig) \<and>
   doneAfterSecond 1 (baseDelayBackoff 1 (effectiveConfig DefaultRetryConfig) (midDraw 1))
     = Some ''context canceled'' \<and>
   doRequestWithRetry baseDelayBackoff DefaultRetryConfig always503 doneAfterSecond midDraw
     = \<lparr> resp = None, err = Some ''context canceled'', attempts = 2 \<rparr>"
  using cancel_during_backoff [where k = 1 and dep = always503 and ctxDone = doneAfterSecond
      and c = DefaultRetryConfig and rnd = midDraw and ctxErr = "''context canceled''"
      and calculateBackoff = baseDelayBackoff]
  by (simp add: effectiveConfig_def DefaultRetryConfig_def always503_def doneAfterSecond_def retryable503)

lemma retryLoop_failure:
  assumes "retryLoop calculateBackoff c dep cd rnd l a = out" "err out = Some e" "int a \<le> MaxRetries c"
  shows "a < attempts out \<and> resp out = None \<and>
         ((dep (attempts out - 1) = Inl e \<and>
           (\<not> isRetryableError (Some e) \<or> int (attempts out - 1) = MaxRetries c)) \<or>
          (int (attempts out - 1) < MaxRetries c \<and>
           (\<exists>e'. dep (attempts out - 1) = Inl e' \<and> isRetryableError (Some e')) \<and>
           cd (attempts out - 1) (calculateBackoff (attempts out - 1) c (rnd (attempts out - 1)))
             = Some e))"
  using assms
proof (induction calculateBackoff c dep cd rnd l a rule: retryLoop.induct)
  case (1 calculateBackoff config dep ctxDone rnd lastErr attempt)
  note le = "1.prems"(3)
  show ?case
  proof (cases "dep attempt")
    case (Inr r)
    then show ?thesis using "1.prems" by (auto simp add: retryLoop.simps[of _ _ _ _ _ _ attempt])
  next
    case (Inl e0)
    show ?thesis
    proof (cases "\<not> isRetryableError (Some e0) \<or> int attempt = MaxRetries config")
      case True
      then have "out = \<lparr> resp = None, err = Some e0, attempts = attempt + 1 \<rparr>"
        using Inl le "1.prems"(1) retryLoop_last[where dep = dep and k = attempt and e = e0 and c = config and cd = ctxDone
          and rnd = rnd and l = lastErr and calculateBackoff = calculateBackoff]
        by auto
      then show ?thesis using "1.prems"(2) Inl True by auto
    next
      case False
      then have lt: "int attempt < MaxRetries config" and re: "isRetryableError (Some e0)"
        using le by auto
      show ?thesis
      proof (cases "ctxDone attempt (calculateBackoff attempt config (rnd attempt))")
        case (Some ce)
        have "out = \<lparr> resp = None, err = Some ce, attempts = attempt + 1 \<rparr>"
          using "1.prems"(1) Inl re lt Some
            retryLoop_cancel[where dep = dep and k = attempt and e = e0 and c = config and cd = ctxDone
              and rnd = rnd and ce = ce and l = lastErr and calculateBackoff = calculateBackoff] by simp
        then show ?thesis using "1.prems"(2) Inl re lt Some by auto
      next
        case None
        have eq: "retryLoop calculateBackoff config dep ctxDone rnd (Some e0) (attempt + 1) = out"
          using Inl False None le "1.prems"(1) by (simp add: retryLoop.simps[of _ _ _ _ _ _ attempt])
        have le': "int (attempt + 1) \<le> MaxRetries config" using lt by simp
        have "attempt + 1 < attempts out \<and> resp out = None \<and>
         ((dep (attempts out - 1) = Inl e \<and>
           (\<not> isRetryableError (Some e) \<or> int (attempts out - 1) = MaxRetries config)) \<or>
          (int (attempts out - 1) < MaxRetries config \<and>
           (\<exists>e'. dep (attempts out - 1) = Inl e' \<and> isRetryableError (Some e')) \<and>
           ctxDone (attempts out - 1)
             (calculateBackoff (attempts out - 1) config (rnd (attempts out - 1))) = Some e))"
          using le Inl False None eq "1.prems"(2) le' by (intro "1.IH") auto
        then show ?thesis by auto
      qed
    qed
  qed
qed

text \<open>
  Claim C8: whenever \<open>doRequestWithRetry\<close> returns an error, it returns no payload and has
  made at least one attempt, and unless it was the \<^verbatim>\<open>ctx.Done()\<close> case of the backoff wait
  after the last attempt that ended the call (the outcome of claim C7), the error is the
  very value the last attempt returned, and that attempt either failed with a
  non-retryable error or was the last one the policy allows.
\<close>

theorem failure_returns_last_error:
  assumes "err (doRequestWithRetry calculateBackoff c dep ctxDone rnd) = Some e"
  shows "let out = doRequestWithRetry calculateBackoff c dep ctxDone rnd;
             config = effectiveConfig c;
             last = attempts out - 1
         in 1 \<le> attempts out \<and> resp out = None \<and>
            ((dep last = Inl e \<and>
              (\<not> isRetryableError (Some e) \<or> int last = MaxRetries config)) \<or>
             (int last < MaxRetries config \<and>
              (\<exists>e'. dep last = Inl e' \<and> isRetryableError (Some e')) \<and>
              ctxDone last (calculateBackoff last config (rnd last)) = Some e))"
proof (cases "0 \<le> MaxRetries (effectiveConfig c)")
  case True
  then have "int 0 \<le> MaxRetries (effectiveConfig c)" by simp
  from retryLoop_failure[OF refl assms[unfolded doRequestWithRetry_def] this]
  show ?thesis unfolding doRequestWithRetry_def Let_def by auto
next
  case False
  then have "err (doRequestWithRetry calculateBackoff c dep ctxDone rnd) = None"
    by (simp add: doRequestWithRetry_def retryLoop.simps[of _ _ _ _ _ _ 0])
  with assms show ?thesis by simp
qed

lemma notRetryable404: "\<not> isRetryableError (Some ''404: Not Found'')"
  by (simp add: isRetryableError_def networkErrors_def retryableStatuses_def)

lemma retryable502: "isRetryableError (Some ''502: Bad Gateway'')"
  by (simp add: isRetryableError_def networkErrors_def retryableStatuses_def)

lemma run_retryThenNotFound:
  "doRequestWithRetry baseDelayBackoff DefaultRetryConfig retryThenNotFound neverDone midDraw
     = \<lparr> resp = None, err = Some ''404: Not Found'', attempts = 2 \<rparr>"
  by (simp add: doRequestWithRetry_def effectiveConfig_def DefaultRetryConfig_def
      retryLoop.simps retryThenNotFound_def neverDone_def notRetryable404 retryable502)

theorem failure_returns_last_error_witness:
  "err (doRequestWithRetry baseDelayBackoff DefaultRetryConfig retryThenNotFound neverDone midDraw)
     = Some ''404: Not Found'' \<and>
   attempts (doRequestWithRetry baseDelayBackoff DefaultRetryConfig retryThenNotFound neverDone midDraw) = 2 \<and>
   retryThenNotFound 1 = Inl ''404: Not Found'' \<and>
   \<not> isRetryableError (Some ''404: Not Found'')"
proof -
  have h: "err (doRequestWithRetry baseDelayBackoff DefaultRetryConfig retryThenNotFound neverDone midDraw)
     = Some ''404: Not Found''" by (simp add: run_retryThenNotFound)
  show ?thesis
    using h failure_returns_last_error [OF h]
    by (simp add: run_retryThenNotFound retryThenNotFound_def notRetryable404)
qed

section \<open>Claims about the retryability classifier\<close>

declare itoa.simps [simp del]

lemma HasPrefix_iff: "HasPrefix s p \<longleftrightarrow> prefix p s"
  by (induction s p rule: HasPrefix.induct) auto

lemma Contains_iff: "strings_Contains s p \<longleftrightarrow> sublist p s"
  by (induction s) (auto simp add: HasPrefix_iff sublist_Cons_right)

lemma isRetryableError_iff:
  "isRetryableError (Some s) \<longleftrightarrow> (\<exists>p \<in> set (networkErrors @ retryableStatuses). sublist p s)"
  by (auto simp add: isRetryableError_def list_ex_iff Contains_iff)

lemma sublist_sep:
  assumes "c \<notin> set p"
  shows "sublist p (a @ c # b) \<longleftrightarrow> sublist p a \<or> sublist p b"
proof
  assume "sublist p (a @ c # b)"
  then consider "sublist p a" | "sublist p (c # b)"
    | p1 p2 where "p = p1 @ p2" "suffix p1 a" "prefix p2 (c # b)"
    unfolding sublist_append by blast
  then show "sublist p a \<or> sublist p b"
  proof cases
    case 1 then show ?thesis by simp
  next
    case 2
    then have "prefix p (c # b) \<or> sublist p b" by (simp add: sublist_Cons_right)
    moreover have "p = []" if "prefix p (c # b)"
      using that assms by (cases p) auto
    ultimately show ?thesis by auto
  next
    case 3
    have "p2 = []" using 3(1,3) assms by (cases p2) auto
    then have "suffix p a" using 3 by simp
    then obtain zs where "a = zs @ p" by (auto simp: suffix_def)
    then have "sublist p a" by simp
    then show ?thesis by simp
  qed
next
  assume "sublist p a \<or> sublist p b"
  then show "sublist p (a @ c # b)"
    by (auto simp add: sublist_append sublist_Cons_right)
qed

lemma sublist_lead:
  assumes "p \<noteq> []" "hd p \<noteq> c"
  shows "sublist p (c # b) \<longleftrightarrow> sublist p b"
  using assms by (cases p) (auto simp add: sublist_Cons_right)

lemma sublist_trail:
  assumes "p \<noteq> []" "last p \<noteq> c"
  shows "sublist p (a @ [c]) \<longleftrightarrow> sublist p a"
proof -
  have "sublist (rev p) (c # rev a) \<longleftrightarrow> sublist (rev p) (rev a)"
    using assms by (intro sublist_lead) (auto simp: hd_rev)
  then show ?thesis by (metis rev.simps(2) rev_rev_ident sublist_rev)
qed

lemma lt10_cases:
  "(d::nat) < 10 \<Longrightarrow> d = 0 \<or> d = 1 \<or> d = 2 \<or> d = 3 \<or> d = 4 \<or> d = 5 \<or> d = 6 \<or> d = 7 \<or> d = 8 \<or> d = 9"
  by arith

lemma digit_inj:
  assumes "a < 10" "b < 10" "digit a = digit b"
  shows "a = b"
  using lt10_cases[OF assms(1)] lt10_cases[OF assms(2)] assms(3)
  by (elim disjE) (simp_all add: digit_def)

lemma digit_not_o:
  assumes "d < 10"
  shows "digit d \<noteq> CHR ''o''"
  using lt10_cases[OF assms] by (elim disjE) (simp_all add: digit_def)

lemma itoa3:
  assumes "100 \<le> n" "n < 1000"
  shows "itoa n = [digit (n div 100), digit (n div 10 mod 10), digit (n mod 10)]"
proof -
  have a: "itoa n = itoa (n div 10) @ [digit (n mod 10)]"
    using assms by (subst itoa.simps) simp
  have b: "itoa (n div 10) = itoa (n div 10 div 10) @ [digit (n div 10 mod 10)]"
    using assms by (subst itoa.simps) simp
  have d: "n div 10 div 10 = n div 100" by (simp add: div_mult2_eq[symmetric])
  have c: "itoa (n div 100) = [digit (n div 100)]"
    using assms by (subst itoa.simps) simp
  show ?thesis unfolding a b d c by simp
qed

lemma sublist_same_length:
  assumes "sublist p s" "length p = length s"
  shows "p = s"
proof -
  obtain ps ss where s: "s = ps @ p @ ss" using assms(1) by (auto simp add: sublist_def)
  then have "length s = length ps + length p + length ss" by simp
  then have "ps = []" "ss = []" using assms(2) by simp_all
  then show ?thesis using s by simp
qed

lemma decimal3: "(n::nat) = 100 * (n div 100) + 10 * (n div 10 mod 10) + n mod 10"
proof -
  have a: "n = 10 * (n div 10) + n mod 10" by simp
  have "n div 10 = 10 * (n div 10 div 10) + n div 10 mod 10" by simp
  then have b: "n div 10 = 10 * (n div 100) + n div 10 mod 10"
    by (simp add: div_mult2_eq[symmetric])
  show ?thesis using a b by linarith
qed

lemma itoa3_eq:
  assumes "100 \<le> n" "n < 1000" "a < 10" "b < 10" "c < 10"
    and "itoa n = [digit a, digit b, digit c]"
  shows "n = 100 * a + 10 * b + c"
proof -
  have "digit (n div 100) = digit a" "digit (n div 10 mod 10) = digit b" "digit (n mod 10) = digit c"
    using assms(6) itoa3[OF assms(1,2)] by simp_all
  moreover have "n div 100 < 10" using assms(2) by simp
  moreover have "n div 10 mod 10 < 10" "n mod 10 < 10" by simp_all
  ultimately have "n div 100 = a" "n div 10 mod 10 = b" "n mod 10 = c"
    using assms(3-5) by (auto intro: digit_inj)
  then show ?thesis using decimal3[of n] by simp
qed

lemma status_text_digits: "digit 4 = CHR ''4''" "digit 2 = CHR ''2''" "digit 9 = CHR ''9''"
  "digit 5 = CHR ''5''" "digit 0 = CHR ''0''" "digit 3 = CHR ''3''"
  by (simp_all add: digit_def)

lemma status_clean:
  assumes "400 \<le> st" "st < 600" "st \<noteq> 429" "st \<noteq> 502" "st \<noteq> 503" "st \<noteq> 504"
  shows "\<not> isRetryableError (Some (itoa st))"
proof
  assume "isRetryableError (Some (itoa st))"
  then obtain p where p: "p \<in> set (networkErrors @ retryableStatuses)" "sublist p (itoa st)"
    by (auto simp add: isRetryableError_iff)
  have f: "itoa st = [digit (st div 100), digit (st div 10 mod 10), digit (st mod 10)]"
    using assms by (intro itoa3) auto
  have lt: "st div 100 < 10" "st div 10 mod 10 < 10" "st mod 10 < 10" using assms by simp_all
  have no: "CHR ''o'' \<notin> set (itoa st)"
    using digit_not_o[OF lt(1)] digit_not_o[OF lt(2)] digit_not_o[OF lt(3)] unfolding f by auto
  from p(1) consider "p \<in> set networkErrors" | "p \<in> set retryableStatuses" by auto
  then show False
  proof cases
    case 1
    then have "CHR ''o'' \<in> set p" by (auto simp add: networkErrors_def)
    moreover have "set p \<subseteq> set (itoa st)" using p(2) by (auto simp add: sublist_def)
    ultimately show False using no by auto
  next
    case 2
    then have "length p = length (itoa st)" by (auto simp add: retryableStatuses_def f)
    then have e: "itoa st = p" using p(2) sublist_same_length by blast
    have st: "100 \<le> st" "st < 1000" using assms by auto
    from 2 consider "p = ''429''" | "p = ''502''" | "p = ''503''" | "p = ''504''"
      by (auto simp add: retryableStatuses_def)
    then show False
    proof cases
      case 1
      then have "itoa st = [digit 4, digit 2, digit 9]" using e by (simp add: status_text_digits)
      from itoa3_eq[OF st _ _ _ this] show False using assms by simp
    next
      case 2
      then have "itoa st = [digit 5, digit 0, digit 2]" using e by (simp add: status_text_digits)
      from itoa3_eq[OF st _ _ _ this] show False using assms by simp
    next
      case 3
      then have "itoa st = [digit 5, digit 0, digit 3]" using e by (simp add: status_text_digits)
      from itoa3_eq[OF st _ _ _ this] show False using assms by simp
    next
      case 4
      then have "itoa st = [digit 5, digit 0, digit 4]" using e by (simp add: status_text_digits)
      from itoa3_eq[OF st _ _ _ this] show False using assms by simp
    qed
  qed
qed

lemma pattern_shape:
  assumes "p \<in> set (networkErrors @ retryableStatuses)"
  shows "CHR '':'' \<notin> set p" "CHR ''-'' \<notin> set p" "p \<noteq> []" "hd p \<noteq> CHR '' ''" "last p \<noteq> CHR '' ''"
  using assms by (auto simp add: networkErrors_def retryableStatuses_def)

lemma clean_join_colon:
  assumes "\<not> isRetryableError (Some a)" "\<not> isRetryableError (Some b)"
  shows "\<not> isRetryableError (Some (a @ '': '' @ b))"
proof -
  have "\<not> sublist p (a @ '': '' @ b)" if p: "p \<in> set (networkErrors @ retryableStatuses)" for p
  proof -
    have "sublist p (a @ CHR '':'' # (CHR '' '' # b)) \<longleftrightarrow> sublist p a \<or> sublist p (CHR '' '' # b)"
      using pattern_shape(1)[OF p] by (rule sublist_sep)
    moreover have "sublist p (CHR '' '' # b) \<longleftrightarrow> sublist p b"
      using pattern_shape(3,4)[OF p] by (rule sublist_lead)
    moreover have "\<not> sublist p a" "\<not> sublist p b"
      using assms p unfolding isRetryableError_iff by blast+
    ultimately show ?thesis by simp
  qed
  then show ?thesis unfolding isRetryableError_iff by blast
qed

lemma clean_join_dash:
  assumes "\<not> isRetryableError (Some a)" "\<not> isRetryableError (Some b)"
  shows "\<not> isRetryableError (Some (a @ '' - '' @ b))"
proof -
  have "\<not> sublist p (a @ '' - '' @ b)" if p: "p \<in> set (networkErrors @ retryableStatuses)" for p
  proof -
    have "sublist p ((a @ [CHR '' '']) @ CHR ''-'' # (CHR '' '' # b))
            \<longleftrightarrow> sublist p (a @ [CHR '' '']) \<or> sublist p (CHR '' '' # b)"
      using pattern_shape(2)[OF p] by (rule sublist_sep)
    moreover have "sublist p (CHR '' '' # b) \<longleftrightarrow> sublist p b"
      using pattern_shape(3,4)[OF p] by (rule sublist_lead)
    moreover have "sublist p (a @ [CHR '' '']) \<longleftrightarrow> sublist p a"
      using pattern_shape(3,5)[OF p] by (rule sublist_trail)
    moreover have "\<not> sublist p a" "\<not> sublist p b"
      using assms p unfolding isRetryableError_iff by blast+
    ultimately show ?thesis by simp
  qed
  then show ?thesis unfolding isRetryableError_iff by blast
qed

lemma retryable_prefix:
  assumes "isRetryableError (Some a)"
  shows "isRetryableError (Some (a @ b))"
  using assms unfolding isRetryableError_iff by (auto simp add: sublist_append)

lemma retryable_suffix:
  assumes "isRetryableError (Some b)"
  shows "isRetryableError (Some (a @ b))"
  using assms unfolding isRetryableError_iff by (auto simp add: sublist_append)

lemma itoa_retryable_status:
  "itoa 429 = ''429''" "itoa 502 = ''502''" "itoa 503 = ''503''" "itoa 504 = ''504''"
  "itoa 404 = ''404''"
  by (simp_all add: itoa3 digit_def)

lemma status_retryable:
  assumes "st \<in> {429, 502, 503, 504}"
  shows "isRetryableError (Some (itoa st))"
  using assms unfolding isRetryableError_iff
  by (auto simp add: itoa_retryable_status retryableStatuses_def)

lemma doRequest_error_status:
  assumes "400 \<le> st"
  shows "\<exists>rest. doRequest unmarshal (Received st body) = Inl (itoa st @ '': '' @ rest)"
  using assms by (auto simp add: doRequest_def split: option.splits)

lemma doRequest_retryable_status:
  assumes "st \<in> {429, 502, 503, 504}"
  shows "\<exists>e. doRequest unmarshal (Received st body) = Inl e \<and> isRetryableError (Some e)"
proof -
  have "400 \<le> st" using assms by auto
  then obtain rest where "doRequest unmarshal (Received st body) = Inl (itoa st @ '': '' @ rest)"
    using doRequest_error_status by blast
  then show ?thesis using retryable_prefix[OF status_retryable[OF assms]] by simp
qed

lemma doRequest_clean:
  assumes "400 \<le> st" "st < 600" "st \<notin> {429, 502, 503, 504}"
    and "\<not> isRetryableError (Some body)"
    and "\<forall>d. unmarshal body = Some d \<longrightarrow>
           \<not> isRetryableError (Some (Code d)) \<and> \<not> isRetryableError (Some (Message d))"
  shows "\<exists>e. doRequest unmarshal (Received st body) = Inl e \<and> \<not> isRetryableError (Some e)"
proof -
  have st: "\<not> isRetryableError (Some (itoa st))"
    using assms(1-3) by (intro status_clean) auto
  show ?thesis
  proof (cases "unmarshal body")
    case None
    then have "doRequest unmarshal (Received st body) = Inl (itoa st @ '': '' @ body)"
      using assms(1) by (simp add: doRequest_def)
    then show ?thesis using clean_join_colon[OF st assms(4)] by simp
  next
    case (Some d)
    show ?thesis
    proof (cases "Code d = []")
      case True
      then have "doRequest unmarshal (Received st body) = Inl (itoa st @ '': '' @ body)"
        using assms(1) Some by (simp add: doRequest_def)
      then show ?thesis using clean_join_colon[OF st assms(4)] by simp
    next
      case False
      then have e: "doRequest unmarshal (Received st body)
                   = Inl (itoa st @ '': '' @ (Code d @ '' - '' @ Message d))"
        using assms(1) Some by (simp add: doRequest_def)
      have "\<not> isRetryableError (Some (Code d @ '' - '' @ Message d))"
        using assms(5) Some by (intro clean_join_dash) auto
      then show ?thesis using clean_join_colon[OF st] e by simp
    qed
  qed
qed

lemma doRequest_fallback_mentions_status:
  assumes "400 \<le> st" "\<forall>d. unmarshal body = Some d \<longrightarrow> Code d = []"
    and "p \<in> set retryableStatuses" "strings_Contains body p"
  shows "doRequest unmarshal (Received st body) = Inl (itoa st @ '': '' @ body) \<and>
         isRetryableError (Some (itoa st @ '': '' @ body))"
proof -
  have "isRetryableError (Some body)"
    using assms(3,4) unfolding isRetryableError_iff Contains_iff by auto
  then have "isRetryableError (Some (itoa st @ '': '' @ body))"
    using retryable_suffix[of body "itoa st @ '': ''"] by simp
  moreover have "doRequest unmarshal (Received st body) = Inl (itoa st @ '': '' @ body)"
    using assms(1,2) by (auto simp add: doRequest_def split: option.splits)
  ultimately show ?thesis by simp
qed

lemma retryLoop_attempts_gt:
  "int a \<le> MaxRetries c \<Longrightarrow> a < attempts (retryLoop calculateBackoff c dep cd rnd l a)"
proof (induction calculateBackoff c dep cd rnd l a rule: retryLoop.induct)
  case (1 calculateBackoff config dep ctxDone rnd lastErr attempt)
  show ?case using "1.prems" "1.IH"
    by (auto simp add: retryLoop.simps[of _ _ _ _ _ _ attempt] split: sum.splits option.splits
        intro: Suc_lessD)
qed

lemma effectiveConfig_MaxRetries:
  "0 \<le> MaxRetries c \<Longrightarrow> 1 \<le> MaxRetries (effectiveConfig c)"
  by (simp add: effectiveConfig_def DefaultRetryConfig_def)

lemma first_error_not_retried:
  assumes "dep 0 = Inl e" "\<not> isRetryableError (Some e)" "0 \<le> MaxRetries c"
  shows "doRequestWithRetry calculateBackoff c dep ctxDone rnd = \<lparr> resp = None, err = Some e, attempts = 1 \<rparr>"
proof -
  have "int 0 \<le> MaxRetries (effectiveConfig c)"
    using effectiveConfig_MaxRetries[OF assms(3)] by simp
  then have "retryLoop calculateBackoff (effectiveConfig c) dep ctxDone rnd None 0
               = \<lparr> resp = None, err = Some e, attempts = 0 + 1 \<rparr>"
    using assms(1,2) by (intro retryLoop_last) auto
  then show ?thesis by (simp add: doRequestWithRetry_def)
qed

lemma first_error_retried:
  assumes "dep 0 = Inl e" "isRetryableError (Some e)" "0 \<le> MaxRetries c"
    and "ctxDone 0 (calculateBackoff 0 (effectiveConfig c) (rnd 0)) = None"
  shows "2 \<le> attempts (doRequestWithRetry calculateBackoff c dep ctxDone rnd)"
proof -
  let ?cfg = "effectiveConfig c"
  have m: "1 \<le> MaxRetries ?cfg" using effectiveConfig_MaxRetries[OF assms(3)] .
  have "retryLoop calculateBackoff ?cfg dep ctxDone rnd None 0 = retryLoop calculateBackoff ?cfg dep ctxDone rnd None (Suc 0)"
    using assms m by (intro retryLoop_step) auto
  moreover have "Suc 0 < attempts (retryLoop calculateBackoff ?cfg dep ctxDone rnd None (Suc 0))"
    using m by (intro retryLoop_attempts_gt) simp
  ultimately show ?thesis by (simp add: doRequestWithRetry_def)
qed

text \<open>
  Claim C4 as stated fails for an error of another 4xx status whose text mentions a
  retryable status: the error \<open>doRequest\<close> builds for a 404 response with the body
  \<open>upstream answered 503\<close> is classified retryable.
\<close>

theorem classifier_other_status_counterexample:
  "doRequest noEnvelope (Received 404 ''upstream answered 503'')
     = Inl ''404: upstream answered 503'' \<and>
   isRetryableError (Some ''404: upstream answered 503'')"
  by (simp add: doRequest_def noEnvelope_def itoa_retryable_status isRetryableError_def
      networkErrors_def retryableStatuses_def)

text \<open>
  Claim C4, amended: the classifier is a total function of the error text that returns
  true exactly when the text contains one of the six network patterns or one of the four
  status strings, and false for a nil error. So it returns true for the error \<open>doRequest\<close>
  builds for a response with status 429, 502, 503 or 504; it returns false for the error
  built for any other status from 400 to 599, provided the text embedded into it (the
  raw body, or the code and message of the envelope) itself contains none of those
  patterns, and then a call that meets such an error at its first attempt makes exactly
  one attempt; and it returns false for the errors \<open>context canceled\<close> and
  \<open>context deadline exceeded\<close>.
\<close>

theorem classifier_by_text:
  "(isRetryableError (Some errStr) \<longleftrightarrow>
      (\<exists>p \<in> set (networkErrors @ retryableStatuses). strings_Contains errStr p)) \<and>
   \<not> isRetryableError None \<and>
   (st \<in> {429, 502, 503, 504} \<longrightarrow>
      (\<exists>e. doRequest unmarshal (Received st body) = Inl e \<and> isRetryableError (Some e))) \<and>
   (400 \<le> st' \<and> st' < 600 \<and> st' \<notin> {429, 502, 503, 504} \<and>
    \<not> isRetryableError (Some body') \<and>
    (\<forall>d. unmarshal' body' = Some d \<longrightarrow>
       \<not> isRetryableError (Some (Code d)) \<and> \<not> isRetryableError (Some (Message d)))
    \<longrightarrow> (\<exists>e. doRequest unmarshal' (Received st' body') = Inl e \<and> \<not> isRetryableError (Some e) \<and>
           (0 \<le> MaxRetries c \<and> dep 0 = Inl e
              \<longrightarrow> attempts (doRequestWithRetry calculateBackoff c dep ctxDone rnd) = 1))) \<and>
   \<not> isRetryableError (Some ''context canceled'') \<and>
   \<not> isRetryableError (Some ''context deadline exceeded'')"
proof -
  have a: "isRetryableError (Some errStr) \<longleftrightarrow>
      (\<exists>p \<in> set (networkErrors @ retryableStatuses). strings_Contains errStr p)"
    by (simp add: isRetryableError_iff Contains_iff)
  have b: "\<not> isRetryableError None" by (simp add: isRetryableError_def)
  have c: "\<exists>e. doRequest unmarshal (Received st body) = Inl e \<and> isRetryableError (Some e)"
    if "st \<in> {429, 502, 503, 504}"
    using that by (rule doRequest_retryable_status)
  have d: "\<exists>e. doRequest unmarshal' (Received st' body') = Inl e \<and> \<not> isRetryableError (Some e) \<and>
           (0 \<le> MaxRetries c \<and> dep 0 = Inl e
              \<longrightarrow> attempts (doRequestWithRetry calculateBackoff c dep ctxDone rnd) = 1)"
    if h: "400 \<le> st'" "st' < 600" "st' \<notin> {429, 502, 503, 504}" "\<not> isRetryableError (Some body')"
      "\<forall>d. unmarshal' body' = Some d \<longrightarrow>
         \<not> isRetryableError (Some (Code d)) \<and> \<not> isRetryableError (Some (Message d))"
  proof -
    obtain e where e: "doRequest unmarshal' (Received st' body') = Inl e" "\<not> isRetryableError (Some e)"
      using doRequest_clean[of st' body' unmarshal'] h by blast
    have "attempts (doRequestWithRetry calculateBackoff c dep ctxDone rnd) = 1" if "0 \<le> MaxRetries c" "dep 0 = Inl e"
      using first_error_not_retried[where dep = dep and e = e and c = c and ctxDone = ctxDone
          and rnd = rnd and calculateBackoff = calculateBackoff] that e(2) by simp
    with e show ?thesis by blast
  qed
  have e: "\<not> isRetryableError (Some ''context canceled'')"
    by (simp add: isRetryableError_def networkErrors_def retryableStatuses_def)
  have f: "\<not> isRetryableError (Some ''context deadline exceeded'')"
    by (simp add: isRetryableError_def networkErrors_def retryableStatuses_def)
  show ?thesis using a b c d e f by blast
qed

lemma clean_page_not_found: "\<not> isRetryableError (Some ''page not found'')"
  by (simp add: isRetryableError_def networkErrors_def retryableStatuses_def)

theorem classifier_by_text_witness:
  "(503::nat) \<in> {429, 502, 503, 504} \<and>
   (\<exists>e. doRequest noEnvelope (Received 503 ''busy'') = Inl e \<and> isRetryableError (Some e)) \<and>
   (400::nat) \<le> 404 \<and> (404::nat) < 600 \<and> (404::nat) \<notin> {429, 502, 503, 504} \<and>
   \<not> isRetryableError (Some ''page not found'') \<and>
   (\<forall>d. noEnvelope ''page not found'' \<noteq> Some d) \<and>
   0 \<le> MaxRetries DefaultRetryConfig \<and>
   always404 0 = Inl ''404: page not found'' \<and>
   attempts (doRequestWithRetry baseDelayBackoff DefaultRetryConfig always404 neverDone midDraw) = 1"
proof -
  have e: "doRequest noEnvelope (Received 404 ''page not found'') = Inl ''404: page not found''"
    by (simp add: doRequest_def noEnvelope_def itoa_retryable_status)
  show ?thesis
    using classifier_by_text [where errStr = "''busy''" and st = 503 and unmarshal = noEnvelope and body = "''busy''"
        and st' = 404 and unmarshal' = noEnvelope and body' = "''page not found''"
        and c = DefaultRetryConfig and dep = always404 and ctxDone = neverDone and rnd = midDraw
        and calculateBackoff = baseDelayBackoff]
    by (simp add: clean_page_not_found noEnvelope_def e always404_def DefaultRetryConfig_def)
qed

text \<open>
  Claim C9: any error whose text contains 429, 502, 503 or 504 anywhere is classified
  retryable. In particular, for a response of any status from 400 on that carries no
  error envelope with a code, \<open>doRequest\<close> embeds the raw body into the error text, and if
  the body contains one of those strings the error is retryable whatever the status is:
  with a policy that allows retries and a context not done during the first backoff
  wait, the request is attempted again.
\<close>

theorem status_text_anywhere_is_retryable:
  "(p \<in> set retryableStatuses \<and> strings_Contains errStr p \<longrightarrow> isRetryableError (Some errStr)) \<and>
   (400 \<le> st \<and> (\<forall>d. unmarshal body = Some d \<longrightarrow> Code d = []) \<and>
    p' \<in> set retryableStatuses \<and> strings_Contains body p'
    \<longrightarrow> doRequest unmarshal (Received st body) = Inl (itoa st @ '': '' @ body) \<and>
        isRetryableError (Some (itoa st @ '': '' @ body)) \<and>
        (0 \<le> MaxRetries c \<and> dep 0 = doRequest unmarshal (Received st body) \<and>
         ctxDone 0 (calculateBackoff 0 (effectiveConfig c) (rnd 0)) = None
         \<longrightarrow> 2 \<le> attempts (doRequestWithRetry calculateBackoff c dep ctxDone rnd)))"
proof -
  have a: "isRetryableError (Some errStr)"
    if "p \<in> set retryableStatuses" "strings_Contains errStr p"
    using that unfolding isRetryableError_iff Contains_iff by auto
  have b: "doRequest unmarshal (Received st body) = Inl (itoa st @ '': '' @ body) \<and>
        isRetryableError (Some (itoa st @ '': '' @ body)) \<and>
        (0 \<le> MaxRetries c \<and> dep 0 = doRequest unmarshal (Received st body) \<and>
         ctxDone 0 (calculateBackoff 0 (effectiveConfig c) (rnd 0)) = None
         \<longrightarrow> 2 \<le> attempts (doRequestWithRetry calculateBackoff c dep ctxDone rnd))"
    if h: "400 \<le> st" "\<forall>d. unmarshal body = Some d \<longrightarrow> Code d = []"
      "p' \<in> set retryableStatuses" "strings_Contains body p'"
  proof -
    have f: "doRequest unmarshal (Received st body) = Inl (itoa st @ '': '' @ body) \<and>
         isRetryableError (Some (itoa st @ '': '' @ body))"
      using h by (intro doRequest_fallback_mentions_status[of st unmarshal body p']) auto
    have "2 \<le> attempts (doRequestWithRetry calculateBackoff c dep ctxDone rnd)"
      if "0 \<le> MaxRetries c" "dep 0 = doRequest unmarshal (Received st body)"
        "ctxDone 0 (calculateBackoff 0 (effectiveConfig c) (rnd 0)) = None"
      using that f by (intro first_error_retried[where e = "itoa st @ '': '' @ body"]) auto
    with f show ?thesis by blast
  qed
  show ?thesis using a b by blast
qed

theorem status_text_anywhere_is_retryable_witness:
  "''503'' \<in> set retryableStatuses \<and>
   strings_Contains ''upstream answered 503'' ''503'' \<and>
   (400::nat) \<le> 404 \<and>
   doRequest noEnvelope (Received 404 ''upstream answered 503'') = Inl ''404: upstream answered 503'' \<and>
   isRetryableError (Some ''404: upstream answered 503'') \<and>
   2 \<le> attempts (doRequestWithRetry baseDelayBackoff DefaultRetryConfig always404mentioning503 neverDone midDraw)"
proof -
  have s: "strings_Contains ''upstream answered 503'' ''503''" by simp
  show ?thesis
    using s status_text_anywhere_is_retryable [where p = "''503''" and errStr = "''upstream answered 503''"
        and st = 404 and unmarshal = noEnvelope and body = "''upstream answered 503''" and p' = "''503''"
        and c = DefaultRetryConfig and dep = always404mentioning503 and ctxDone = neverDone
        and rnd = midDraw and calculateBackoff = baseDelayBackoff]
    by (simp add: retryableStatuses_def noEnvelope_def always404mentioning503_def neverDone_def
        DefaultRetryConfig_def itoa_retryable_status)
qed

section \<open>Claims about the redirect hook\<close>





















section \<open>Claims about the long-running operation poller\<close>

lemma fetched_simps [simp]:
  "process (fetched c r) = process r" "werr (fetched c r) = werr r"
  "fetches (fetched c r) = c # fetches r" "timers (fetched c r) = timers r"
  by (simp_all add: fetched_def)

lemma armed_simps [simp]:
  "process (armed d r) = process r" "werr (armed d r) = werr r"
  "fetches (armed d r) = fetches r" "timers (armed d r) = d # timers r"
  by (simp_all add: armed_def)

lemma pollLoop_pending:
  assumes "Status p \<notin> {''SUCCESS'', ''FINISHED'', ''FAILED'', ''ERROR'', ''CANCELLED''}"
  shows "pollLoop processID ctxErr final cur (Inr p # ticks) =
           armed cur (fetched WithTimeout (pollLoop processID ctxErr final (nextInterval cur) ticks))"
  using assms by simp

lemma pollLoop_fetch_error:
  "pollLoop processID ctxErr final cur (Inl e # ticks) =
     \<lparr> process = None, werr = Some (''failed to get process status: '' @ e),
       fetches = [WithTimeout], timers = [cur] \<rparr>"
  by (simp add: armed_def fetched_def)

lemma pollLoop_deadline:
  "pollLoop processID ctxErr final cur [] =
     (case final of
        Inr finalProcess \<Rightarrow>
          \<lparr> process = Some finalProcess,
            werr = Some (''timeout waiting for process '' @ processID @ '' (last status: ''
                         @ Status finalProcess @ '')''),
            fetches = [Background], timers = [cur] \<rparr>
      | Inl _ \<Rightarrow>
          \<lparr> process = None,
            werr = Some (''timeout waiting for process '' @ processID @ '': '' @ ctxErr),
            fetches = [Background], timers = [cur] \<rparr>)"
  by (simp add: armed_def fetched_def split: sum.splits)

declare pollLoop.simps [simp del]

lemma funpow_intervals:
  "intervals (Suc n) cur = intervals n cur @ [(nextInterval ^^ n) cur]"
proof (induction n arbitrary: cur)
  case 0
  then show ?case by simp
next
  case (Suc n)
  have "intervals (Suc (Suc n)) cur = cur # intervals (Suc n) (nextInterval cur)" by simp
  also have "\<dots> = cur # (intervals n (nextInterval cur) @ [(nextInterval ^^ n) (nextInterval cur)])"
    using Suc by simp
  also have "\<dots> = intervals (Suc n) cur @ [(nextInterval ^^ Suc n) cur]"
    by (simp add: funpow_swap1)
  finally show ?case .
qed

lemma pollLoop_pending_prefix:
  assumes "\<forall>t \<in> set pend. \<exists>p. t = Inr p \<and>
             Status p \<notin> {''SUCCESS'', ''FINISHED'', ''FAILED'', ''ERROR'', ''CANCELLED''}"
  shows "process (pollLoop pid ce fin cur (pend @ rest))
           = process (pollLoop pid ce fin ((nextInterval ^^ length pend) cur) rest) \<and>
         werr (pollLoop pid ce fin cur (pend @ rest))
           = werr (pollLoop pid ce fin ((nextInterval ^^ length pend) cur) rest) \<and>
         fetches (pollLoop pid ce fin cur (pend @ rest))
           = replicate (length pend) WithTimeout
             @ fetches (pollLoop pid ce fin ((nextInterval ^^ length pend) cur) rest) \<and>
         timers (pollLoop pid ce fin cur (pend @ rest))
           = intervals (length pend) cur
             @ timers (pollLoop pid ce fin ((nextInterval ^^ length pend) cur) rest)"
  using assms
proof (induction pend arbitrary: cur)
  case Nil
  then show ?case by simp
next
  case (Cons t pend)
  obtain p where p: "t = Inr p"
    "Status p \<notin> {''SUCCESS'', ''FINISHED'', ''FAILED'', ''ERROR'', ''CANCELLED''}"
    using Cons.prems by auto
  have rest: "\<forall>t \<in> set pend. \<exists>p. t = Inr p \<and>
             Status p \<notin> {''SUCCESS'', ''FINISHED'', ''FAILED'', ''ERROR'', ''CANCELLED''}"
    using Cons.prems by simp
  have step: "pollLoop pid ce fin cur ((t # pend) @ rest)
        = armed cur (fetched WithTimeout (pollLoop pid ce fin (nextInterval cur) (pend @ rest)))"
    using pollLoop_pending[OF p(2)] p(1) by simp
  show ?case
    unfolding step using Cons.IH[OF rest, of "nextInterval cur"]
    by (simp add: funpow_swap1)
qed

lemma nextInterval_le: "nextInterval cur \<le> maxInterval"
  by (simp add: nextInterval_def Let_def)

lemma intervals_le:
  "cur \<le> maxInterval \<Longrightarrow> \<forall>d \<in> set (intervals n cur). d \<le> maxInterval"
proof (induction n arbitrary: cur)
  case 0
  then show ?case by simp
next
  case (Suc n)
  have "\<forall>d \<in> set (intervals n (nextInterval cur)). d \<le> maxInterval"
    by (rule Suc.IH) (rule nextInterval_le)
  then show ?case using Suc.prems by simp
qed

lemma funpow_nextInterval_le:
  "cur \<le> maxInterval \<Longrightarrow> (nextInterval ^^ n) cur \<le> maxInterval"
  by (induction n) (auto simp add: nextInterval_le)

lemma pollLoop_background_is_error:
  "Background \<in> set (fetches (pollLoop pid ce fin cur ticks))
     \<Longrightarrow> werr (pollLoop pid ce fin cur ticks) \<noteq> None"
proof (induction ticks arbitrary: cur)
  case Nil
  then show ?case by (simp add: pollLoop_deadline split: sum.splits)
next
  case (Cons t ticks)
  show ?case
  proof (cases t)
    case (Inl e)
    then show ?thesis by (simp add: pollLoop_fetch_error)
  next
    case (Inr p)
    show ?thesis
    proof (cases "Status p \<in> {''SUCCESS'', ''FINISHED'', ''FAILED'', ''ERROR'', ''CANCELLED''}")
      case True
      then show ?thesis using Cons.prems Inr by (auto simp add: pollLoop.simps)
    next
      case False
      then show ?thesis using Cons Inr by (simp add: pollLoop_pending)
    qed
  qed
qed

text \<open>
  Claim C2 as stated fails: when the deadline expires and the final fetch finds the
  process in status \<open>SUCCESS\<close>, the poller returns that process together with a non-nil
  timeout error, not a success.
\<close>

theorem final_check_reports_timeout_counterexample:
  "WaitForProcess ''p1'' (Inr runningProcess) [] ''context deadline exceeded'' (Inr succeededProcess)
     = \<lparr> process = Some succeededProcess,
         werr = Some ''timeout waiting for process p1 (last status: SUCCESS)'',
         fetches = [WithTimeout, Background],
         timers = [500000000] \<rparr> \<and>
   Status succeededProcess = ''SUCCESS''"
  by (simp add: WaitForProcess_def runningProcess_def succeededProcess_def pollLoop_deadline
      fetched_def minInterval_def Millisecond_def)

lemma pollLoop_background_only_after_pending:
  "Background \<in> set (fetches (pollLoop pid ce fin cur ticks))
     \<Longrightarrow> \<forall>t \<in> set ticks. \<exists>p. t = Inr p \<and>
           Status p \<notin> {''SUCCESS'', ''FINISHED'', ''FAILED'', ''ERROR'', ''CANCELLED''}"
proof (induction ticks arbitrary: cur)
  case Nil
  then show ?case by simp
next
  case (Cons t ticks)
  show ?case
  proof (cases t)
    case (Inl e)
    then show ?thesis using Cons.prems by (simp add: pollLoop_fetch_error)
  next
    case (Inr p)
    show ?thesis
    proof (cases "Status p \<in> {''SUCCESS'', ''FINISHED'', ''FAILED'', ''ERROR'', ''CANCELLED''}")
      case True
      then show ?thesis using Cons.prems Inr by (auto simp add: pollLoop.simps)
    next
      case False
      then have "Background \<in> set (fetches (pollLoop pid ce fin (nextInterval cur) ticks))"
        using Cons.prems Inr by (simp add: pollLoop_pending)
      then have "\<forall>t \<in> set ticks. \<exists>p. t = Inr p \<and>
           Status p \<notin> {''SUCCESS'', ''FINISHED'', ''FAILED'', ''ERROR'', ''CANCELLED''}"
        by (rule Cons.IH)
      then show ?thesis using Inr False by simp
    qed
  qed
qed

lemma WaitForProcess_background_only_after_pending:
  assumes "Background \<in> set (fetches (WaitForProcess processID first ticks ctxErr final))"
  shows "(\<forall>p. first = Inr p \<longrightarrow>
            Status p \<notin> {''SUCCESS'', ''FINISHED'', ''FAILED'', ''ERROR'', ''CANCELLED''}) \<and>
         (\<forall>t \<in> set ticks. \<exists>p. t = Inr p \<and>
            Status p \<notin> {''SUCCESS'', ''FINISHED'', ''FAILED'', ''ERROR'', ''CANCELLED''})"
proof -
  have first: "\<forall>p. first = Inr p \<longrightarrow>
            Status p \<notin> {''SUCCESS'', ''FINISHED'', ''FAILED'', ''ERROR'', ''CANCELLED''}"
    using assms by (auto simp add: WaitForProcess_def split: sum.splits if_splits)
  then have "WaitForProcess processID first ticks ctxErr final
               = fetched WithTimeout (pollLoop processID ctxErr final minInterval ticks)"
    by (auto simp add: WaitForProcess_def split: sum.splits)
  then have "Background \<in> set (fetches (pollLoop processID ctxErr final minInterval ticks))"
    using assms by simp
  then have "\<forall>t \<in> set ticks. \<exists>p. t = Inr p \<and>
            Status p \<notin> {''SUCCESS'', ''FINISHED'', ''FAILED'', ''ERROR'', ''CANCELLED''}"
    by (rule pollLoop_background_only_after_pending)
  with first show ?thesis by (rule conjI)
qed

lemma WaitForProcess_background_is_error:
  "Background \<in> set (fetches (WaitForProcess processID first ticks ctxErr final))
     \<Longrightarrow> werr (WaitForProcess processID first ticks ctxErr final) \<noteq> None"
  using pollLoop_background_is_error[of processID ctxErr final minInterval ticks]
  by (auto simp add: WaitForProcess_def split: sum.splits if_splits)

text \<open>
  Claim C2, amended: whenever the \<^verbatim>\<open>select\<close> of the poll loop takes the \<^verbatim>\<open>ctx.Done()\<close> case
  (the deadline expires while the poller waits between two polls: the first check found
  no terminal status or failed, and every later poll returned a non-terminal status),
  exactly one final status fetch is made, with \<^verbatim>\<open>context.Background()\<close>, after all the
  fetches bound by the timeout; and a final fetch is made in no other run (a deadline
  that expires while a poll is in flight makes that poll fail, which ends the wait as in
  claim C3, without a final fetch). If the final fetch returns a process, whatever its
  status, the poller returns that process together with the error
  \<open>timeout waiting for process <id> (last status: <status>)\<close>; if it fails, the poller
  returns no process and the error \<open>timeout waiting for process <id>: <ctx.Err()>\<close>. So
  a terminal outcome seen by the final fetch can be told from a bare timeout by the
  returned process and the status in the message, but it is always reported with a
  non-nil error: no run that made the final fetch returns a nil error.
\<close>

theorem final_check_after_deadline:
  "(Background \<in> set (fetches (WaitForProcess processID first ticks ctxErr final))
      \<longrightarrow> werr (WaitForProcess processID first ticks ctxErr final) \<noteq> None) \<and>
   ((\<forall>p. first = Inr p \<longrightarrow>
        Status p \<notin> {''SUCCESS'', ''FINISHED'', ''FAILED'', ''ERROR'', ''CANCELLED''}) \<and>
    (\<forall>t \<in> set ticks. \<exists>p. t = Inr p \<and>
        Status p \<notin> {''SUCCESS'', ''FINISHED'', ''FAILED'', ''ERROR'', ''CANCELLED''})
    \<longrightarrow> fetches (WaitForProcess processID first ticks ctxErr final)
           = replicate (length ticks + 1) WithTimeout @ [Background] \<and>
         (\<forall>finalProcess. final = Inr finalProcess \<longrightarrow>
            process (WaitForProcess processID first ticks ctxErr final) = Some finalProcess \<and>
            werr (WaitForProcess processID first ticks ctxErr final)
              = Some (''timeout waiting for process '' @ processID @ '' (last status: ''
                      @ Status finalProcess @ '')'')) \<and>
         (\<forall>e. final = Inl e \<longrightarrow>
            process (WaitForProcess processID first ticks ctxErr final) = None \<and>
            werr (WaitForProcess processID first ticks ctxErr final)
              = Some (''timeout waiting for process '' @ processID @ '': '' @ ctxErr))) \<and>
   (Background \<in> set (fetches (WaitForProcess processID first ticks ctxErr final))
      \<longrightarrow> (\<forall>p. first = Inr p \<longrightarrow>
             Status p \<notin> {''SUCCESS'', ''FINISHED'', ''FAILED'', ''ERROR'', ''CANCELLED''}) \<and>
          (\<forall>t \<in> set ticks. \<exists>p. t = Inr p \<and>
             Status p \<notin> {''SUCCESS'', ''FINISHED'', ''FAILED'', ''ERROR'', ''CANCELLED''}))"
proof -
  have main: "fetches (WaitForProcess processID first ticks ctxErr final)
           = replicate (length ticks + 1) WithTimeout @ [Background] \<and>
         (\<forall>finalProcess. final = Inr finalProcess \<longrightarrow>
            process (WaitForProcess processID first ticks ctxErr final) = Some finalProcess \<and>
            werr (WaitForProcess processID first ticks ctxErr final)
              = Some (''timeout waiting for process '' @ processID @ '' (last status: ''
                      @ Status finalProcess @ '')'')) \<and>
         (\<forall>e. final = Inl e \<longrightarrow>
            process (WaitForProcess processID first ticks ctxErr final) = None \<and>
            werr (WaitForProcess processID first ticks ctxErr final)
              = Some (''timeout waiting for process '' @ processID @ '': '' @ ctxErr))"
    if h1: "\<forall>p. first = Inr p \<longrightarrow>
             Status p \<notin> {''SUCCESS'', ''FINISHED'', ''FAILED'', ''ERROR'', ''CANCELLED''}"
      and h2: "\<forall>t \<in> set ticks. \<exists>p. t = Inr p \<and>
             Status p \<notin> {''SUCCESS'', ''FINISHED'', ''FAILED'', ''ERROR'', ''CANCELLED''}"
  proof -
    have w: "WaitForProcess processID first ticks ctxErr final
               = fetched WithTimeout (pollLoop processID ctxErr final minInterval ticks)"
      using h1 by (auto simp add: WaitForProcess_def split: sum.splits)
    note pre = pollLoop_pending_prefix[OF h2, of processID ctxErr final minInterval "[]"]
    show ?thesis
      unfolding w using pre by (auto simp add: pollLoop_deadline split: sum.splits)
  qed
  show ?thesis
    apply (rule conjI)
     apply (rule impI, erule WaitForProcess_background_is_error)
    apply (rule conjI)
     apply (rule impI, erule conjE)
     apply (rule main; assumption)
    apply (rule impI)
    apply (erule WaitForProcess_background_only_after_pending)
    done
qed

theorem final_check_after_deadline_witness:
  "Status runningProcess \<notin> {''SUCCESS'', ''FINISHED'', ''FAILED'', ''ERROR'', ''CANCELLED''} \<and>
   fetches (WaitForProcess ''p1'' (Inr runningProcess) [Inr runningProcess]
              ''context deadline exceeded'' (Inr succeededProcess))
     = [WithTimeout, WithTimeout, Background] \<and>
   werr (WaitForProcess ''p1'' (Inr runningProcess) [Inr runningProcess]
              ''context deadline exceeded'' (Inr succeededProcess))
     = Some ''timeout waiting for process p1 (last status: SUCCESS)'' \<and>
   werr (WaitForProcess ''p1'' (Inr runningProcess) [Inr runningProcess]
              ''context deadline exceeded'' (Inl ''connection refused''))
     = Some ''timeout waiting for process p1: context deadline exceeded''"
proof -
  have h0: "Status runningProcess \<notin> {''SUCCESS'', ''FINISHED'', ''FAILED'', ''ERROR'', ''CANCELLED''}"
    by (simp add: runningProcess_def)
  have h1: "\<forall>p. Inr runningProcess = (Inr p :: error + Process) \<longrightarrow>
      Status p \<notin> {''SUCCESS'', ''FINISHED'', ''FAILED'', ''ERROR'', ''CANCELLED''}"
    by (simp add: runningProcess_def)
  have h2: "\<forall>t \<in> set [Inr runningProcess :: error + Process]. \<exists>p. t = Inr p \<and>
      Status p \<notin> {''SUCCESS'', ''FINISHED'', ''FAILED'', ''ERROR'', ''CANCELLED''}"
    by (simp add: runningProcess_def)
  show ?thesis
    using h0 h1 h2
      final_check_after_deadline [where processID = "''p1''" and first = "Inr runningProcess"
        and ticks = "[Inr runningProcess]" and ctxErr = "''context deadline exceeded''"
        and final = "Inr succeededProcess"]
      final_check_after_deadline [where processID = "''p1''" and first = "Inr runningProcess"
        and ticks = "[Inr runningProcess]" and ctxErr = "''context deadline exceeded''"
        and final = "Inl ''connection refused''"]
    by (simp add: succeededProcess_def)
qed

text \<open>
  Claim C3 as stated fails: a status fetch that fails inside the poll loop with a
  transient transport error ends the wait with that error, although a later poll would
  have seen the process succeed.
\<close>

theorem poll_fetch_error_counterexample:
  "WaitForProcess ''p1'' (Inr runningProcess)
      [Inl ''read tcp: connection reset by peer'', Inr succeededProcess]
      ''context deadline exceeded'' (Inr succeededProcess)
     = \<lparr> process = None,
         werr = Some ''failed to get process status: read tcp: connection reset by peer'',
         fetches = [WithTimeout, WithTimeout],
         timers = [500000000] \<rparr> \<and>
   isRetryableError (Some ''read tcp: connection reset by peer'')"
  by (simp add: WaitForProcess_def runningProcess_def pollLoop_fetch_error fetched_def
      minInterval_def Millisecond_def isRetryableError_def networkErrors_def)

text \<open>
  Claim C3, amended: inside the poll loop a fetched status that is not terminal advances
  the poller: it waits out the next interval, recomputed as the current one times 1.5 and
  capped at \<open>maxInterval\<close>, and polls again. A status fetch that fails ends the wait at
  once: \<open>WaitForProcess\<close> returns no process and the error
  \<open>failed to get process status: <err>\<close>, and makes no further fetch, not even the final
  one. (Only a failure of the immediate first check is passed over.)
\<close>

theorem poll_fetch_error_aborts:
  "(Status p \<notin> {''SUCCESS'', ''FINISHED'', ''FAILED'', ''ERROR'', ''CANCELLED''} \<longrightarrow>
      pollLoop processID ctxErr final currentInterval (Inr p # ticks)
        = armed currentInterval (fetched WithTimeout
            (pollLoop processID ctxErr final (nextInterval currentInterval) ticks))) \<and>
   nextInterval currentInterval \<le> maxInterval \<and>
   pollLoop processID ctxErr final currentInterval (Inl e # ticks)
     = \<lparr> process = None, werr = Some (''failed to get process status: '' @ e),
         fetches = [WithTimeout], timers = [currentInterval] \<rparr> \<and>
   ((\<forall>p. first = Inr p \<longrightarrow>
        Status p \<notin> {''SUCCESS'', ''FINISHED'', ''FAILED'', ''ERROR'', ''CANCELLED''}) \<and>
    (\<forall>t \<in> set pending. \<exists>p. t = Inr p \<and>
        Status p \<notin> {''SUCCESS'', ''FINISHED'', ''FAILED'', ''ERROR'', ''CANCELLED''})
    \<longrightarrow> WaitForProcess processID first (pending @ Inl e # ticks) ctxErr final
          = \<lparr> process = None, werr = Some (''failed to get process status: '' @ e),
              fetches = replicate (length pending + 2) WithTimeout,
              timers = intervals (length pending + 1) minInterval \<rparr> \<and>
        (\<forall>d \<in> set (intervals (length pending + 1) minInterval). d \<le> maxInterval))"
proof -
  have a: "pollLoop processID ctxErr final currentInterval (Inr p # ticks)
        = armed currentInterval (fetched WithTimeout
            (pollLoop processID ctxErr final (nextInterval currentInterval) ticks))"
    if "Status p \<notin> {''SUCCESS'', ''FINISHED'', ''FAILED'', ''ERROR'', ''CANCELLED''}"
    using that by (rule pollLoop_pending)
  have b: "WaitForProcess processID first (pending @ Inl e # ticks) ctxErr final
          = \<lparr> process = None, werr = Some (''failed to get process status: '' @ e),
              fetches = replicate (length pending + 2) WithTimeout,
              timers = intervals (length pending + 1) minInterval \<rparr> \<and>
        (\<forall>d \<in> set (intervals (length pending + 1) minInterval). d \<le> maxInterval)"
    if h1: "\<forall>p. first = Inr p \<longrightarrow>
             Status p \<notin> {''SUCCESS'', ''FINISHED'', ''FAILED'', ''ERROR'', ''CANCELLED''}"
      and h2: "\<forall>t \<in> set pending. \<exists>p. t = Inr p \<and>
             Status p \<notin> {''SUCCESS'', ''FINISHED'', ''FAILED'', ''ERROR'', ''CANCELLED''}"
  proof -
    let ?W = "WaitForProcess processID first (pending @ Inl e # ticks) ctxErr final"
    have w: "?W = fetched WithTimeout
               (pollLoop processID ctxErr final minInterval (pending @ Inl e # ticks))"
      using h1 by (auto simp add: WaitForProcess_def split: sum.splits)
    note pre = pollLoop_pending_prefix[OF h2, of processID ctxErr final minInterval "Inl e # ticks"]
    have f1: "process ?W = None" "werr ?W = Some (''failed to get process status: '' @ e)"
      unfolding w using pre by (simp_all add: pollLoop_fetch_error)
    have "fetches ?W = WithTimeout # replicate (length pending) WithTimeout @ [WithTimeout]"
      unfolding w using pre by (simp add: pollLoop_fetch_error)
    then have f2: "fetches ?W = replicate (length pending + 2) WithTimeout"
      by (simp add: replicate_append_same)
    have "timers ?W = intervals (length pending) minInterval
                        @ [(nextInterval ^^ length pending) minInterval]"
      unfolding w using pre by (simp add: pollLoop_fetch_error)
    then have f3: "timers ?W = intervals (length pending + 1) minInterval"
      using funpow_intervals[of "length pending" minInterval] by simp
    note f = f1 f2 f3
    have "?W = \<lparr> process = None, werr = Some (''failed to get process status: '' @ e),
              fetches = replicate (length pending + 2) WithTimeout,
              timers = intervals (length pending + 1) minInterval \<rparr>"
      using f by (intro WaitResult.equality) simp_all
    moreover have "minInterval \<le> maxInterval"
      by (simp add: minInterval_def maxInterval_def Millisecond_def Second_def)
    then have "\<forall>d \<in> set (intervals (length pending + 1) minInterval). d \<le> maxInterval"
      by (rule intervals_le)
    ultimately show ?thesis by simp
  qed
  note c = nextInterval_le[of currentInterval]
  note d = pollLoop_fetch_error[of processID ctxErr final currentInterval e ticks]
  show ?thesis
    by (intro conjI impI a b[THEN conjunct1] b[THEN conjunct2] c d) auto
qed

theorem poll_fetch_error_aborts_witness:
  "Status runningProcess \<notin> {''SUCCESS'', ''FINISHED'', ''FAILED'', ''ERROR'', ''CANCELLED''} \<and>
   WaitForProcess ''p1'' (Inl ''connection refused'')
      ([Inr runningProcess, Inr runningProcess] @ Inl ''i/o timeout'' # [Inr succeededProcess])
      ''context deadline exceeded'' (Inr succeededProcess)
     = \<lparr> process = None, werr = Some ''failed to get process status: i/o timeout'',
         fetches = [WithTimeout, WithTimeout, WithTimeout, WithTimeout],
         timers = [500000000, 750000000, 1125000000] \<rparr>"
proof -
  have i: "minInterval = 500000000" "nextInterval 500000000 = 750000000"
    "nextInterval 750000000 = 1125000000"
    by (simp_all add: nextInterval_def multiplier_def maxInterval_def
        Duration_of_float_def minInterval_def Millisecond_def Second_def Let_def)
  have r: "replicate 4 WithTimeout = [WithTimeout, WithTimeout, WithTimeout, WithTimeout]"
    by (simp add: numeral_eq_Suc)
  have h0: "Status runningProcess \<notin> {''SUCCESS'', ''FINISHED'', ''FAILED'', ''ERROR'', ''CANCELLED''}"
    by (simp add: runningProcess_def)
  show ?thesis
    using h0 i r
      poll_fetch_error_aborts [where p = runningProcess and first = "Inl ''connection refused''"
        and pending = "[Inr runningProcess, Inr runningProcess]" and e = "''i/o timeout''"
        and ticks = "[Inr succeededProcess]" and processID = "''p1''"
        and ctxErr = "''context deadline exceeded''" and final = "Inr succeededProcess"
        and currentInterval = minInterval]
    by (simp add: i)
qed

end
